theory Spec2Isabelle
  imports Main
begin

section \<open>Recursive multiplication by repeated addition\<close>

text \<open>
  The module under study is
  \<^verbatim>\<open>
  const add = require('./add.js');
  const subtract = require('./subtract.js');

  const multiply = (a, b, base = a) => {
    if (b <= 1) return a;
    return multiply(add(a, base), subtract(b, 1), base);
  };
  \<close>
  Its values are JavaScript Numbers and it runs on a call stack of finite size. Both are
  part of the model: arithmetic rounds as binary64 does, and a call that finds no room
  on the stack throws \<open>RangeError\<close>.
\<close>

subsection \<open>Numbers\<close>

text \<open>
  The specification speaks of integers, so the finite Numbers of the model are the
  integer-valued ones, together with the two infinities (a sum can overflow) and NaN
  (the sum of opposite infinities). The two zeros are identified; no operation of the
  module tells them apart. A value \<open>Finite n\<close> is a Number when \<open>n\<close> is representable.
\<close>

datatype number = Finite int | PosInf | NegInf | NaN

text \<open>The number of binary digits of a positive integer.\<close>

function bit_length :: "int \<Rightarrow> nat" where
  "bit_length n = (if n \<le> 0 then 0 else Suc (bit_length (n div 2)))"
  by pat_completeness auto
termination
  by (relation "measure nat") auto

declare bit_length.simps [simp del]

text \<open>
  Rounding of a non-negative integer to 53 significant binary digits, to nearest, ties
  to the even significand. With \<open>e\<close> digits, \<open>e > 53\<close>, the representable neighbours are
  the multiples of \<open>2 ^ (e - 53)\<close>.
\<close>

definition round_magnitude :: "int \<Rightarrow> int" where
  "round_magnitude m =
     (let e = bit_length m
      in if e \<le> 53 then m
         else (let u = 2 ^ (e - 53); q = m div u; r = m mod u
               in if 2 * r < u \<or> (2 * r = u \<and> even q) then q * u else (q + 1) * u))"

text \<open>
  The Number nearest to an integer. A magnitude that rounds to \<open>2 ^ 1024\<close> or more
  overflows to an infinity.
\<close>

definition round_number :: "int \<Rightarrow> number" where
  "round_number n =
     (let m = round_magnitude \<bar>n\<bar>
      in if 2 ^ 1024 \<le> m then (if n < 0 then NegInf else PosInf)
         else Finite (if n < 0 then - m else m))"

definition representable :: "int \<Rightarrow> bool" where
  "representable n \<longleftrightarrow> round_number n = Finite n"

text \<open>The comparison \<^verbatim>\<open><=\<close>: false whenever an operand is NaN.\<close>

fun number_le :: "number \<Rightarrow> number \<Rightarrow> bool" where
  "number_le NaN y = False"
| "number_le x NaN = False"
| "number_le (Finite x) (Finite y) = (x \<le> y)"
| "number_le NegInf y = True"
| "number_le x PosInf = True"
| "number_le x y = False"

subsection \<open>The two collaborators\<close>

text \<open>
  Modelled from the spec: the file \<^verbatim>\<open>add.js\<close> is not among the sources. Section 4.1
  gives its contract: given two numeric operands, it returns their arithmetic sum and
  has no side effects. The sum of two Numbers is the exact sum, rounded.
\<close>

fun add :: "number \<Rightarrow> number \<Rightarrow> number" where
  "add (Finite x) (Finite y) = round_number (x + y)"
| "add NaN y = NaN"
| "add x NaN = NaN"
| "add PosInf NegInf = NaN"
| "add NegInf PosInf = NaN"
| "add PosInf y = PosInf"
| "add NegInf y = NegInf"
| "add x PosInf = PosInf"
| "add x NegInf = NegInf"

text \<open>
  Modelled from the spec: the file \<^verbatim>\<open>subtract.js\<close> is not among the sources.
  Section 4.2 gives its contract: given operands \<open>x\<close> and \<open>y\<close>, it returns \<open>x - y\<close> and
  has no side effects. The difference of two Numbers is the exact difference, rounded.
\<close>

fun subtract :: "number \<Rightarrow> number \<Rightarrow> number" where
  "subtract (Finite x) (Finite y) = round_number (x - y)"
| "subtract NaN y = NaN"
| "subtract x NaN = NaN"
| "subtract PosInf PosInf = NaN"
| "subtract NegInf NegInf = NaN"
| "subtract PosInf y = PosInf"
| "subtract NegInf y = NegInf"
| "subtract x PosInf = NegInf"
| "subtract x NegInf = PosInf"

subsection \<open>The function\<close>

text \<open>
  The third parameter has the default value \<open>a\<close>: a call that omits it (\<open>None\<close>)
  binds \<open>base\<close> to the first argument of that very call. The recursive call always
  passes \<open>base\<close> explicitly.
\<close>

definition default_base :: "number \<Rightarrow> number option \<Rightarrow> number" where
  "default_base a base_arg = (case base_arg of None \<Rightarrow> a | Some v \<Rightarrow> v)"

text \<open>
  The first argument is the number of frames the call stack can still take when the
  call is made; every call of \<open>multiply\<close>, \<open>add\<close> and \<open>subtract\<close> takes one frame while it
  runs. A call that finds no frame throws \<open>RangeError\<close>, which nothing in the module
  catches. The recursive call is not in a position where an engine reuses the frame
  of its caller, so the frames of all pending invocations are held at once.

  When the invocation has taken the last frame and has to recurse, the call of \<open>add\<close>
  is the one that throws; the equations below give the same \<open>RangeError\<close> one step later.
\<close>

datatype error = RangeError

fun multiply :: "nat \<Rightarrow> number \<Rightarrow> number \<Rightarrow> number option \<Rightarrow> error + number" where
  "multiply 0 a b base_arg = Inl RangeError"
| "multiply (Suc depth) a b base_arg =
     (let base = default_base a base_arg
      in if number_le b (Finite 1) then Inr a
         else multiply depth (add a base) (subtract b (Finite 1)) (Some base))"

subsection \<open>The same body on an unbounded stack\<close>

text \<open>
  Here the stack never runs out and nothing is assumed about termination: a call that
  recursed forever has the value \<open>None\<close>.
\<close>

partial_function (option) multiply_partial :: "number \<Rightarrow> number \<Rightarrow> number option \<Rightarrow> number option" where
  "multiply_partial a b base_arg =
     (let base = default_base a base_arg
      in if number_le b (Finite 1) then Some a
         else multiply_partial (add a base) (subtract b (Finite 1)) (Some base))"

subsection \<open>The sequence of invocations\<close>

text \<open>
  A frame holds the three parameters of one invocation after the default has been
  applied. \<open>multiply_trace\<close> lists the frames of a call in the order they are entered,
  up to the return or the \<open>RangeError\<close>.
\<close>

record frame =
  frame_a :: number
  frame_b :: number
  frame_base :: number

fun multiply_trace :: "nat \<Rightarrow> number \<Rightarrow> number \<Rightarrow> number option \<Rightarrow> frame list" where
  "multiply_trace 0 a b base_arg = []"
| "multiply_trace (Suc depth) a b base_arg =
     (let base = default_base a base_arg
      in \<lparr>frame_a = a, frame_b = b, frame_base = base\<rparr> #
         (if number_le b (Finite 1) then []
          else multiply_trace depth (add a base) (subtract b (Finite 1)) (Some base)))"

subsection \<open>Counting the operations\<close>

text \<open>
  The collaborators and the recursive call each tick a counter of their own. The
  arguments of the recursive call are evaluated left to right: first \<open>add\<close>, then
  \<open>subtract\<close>, then the call itself. An invocation that has taken the last frame
  cannot call \<open>add\<close>: it throws before any counter moves.
\<close>

record counters =
  additions :: nat
  subtractions :: nat
  recursive_steps :: nat

definition add_counted :: "number \<Rightarrow> number \<Rightarrow> counters \<Rightarrow> number \<times> counters" where
  "add_counted x y c = (add x y, c\<lparr>additions := Suc (additions c)\<rparr>)"

definition subtract_counted :: "number \<Rightarrow> number \<Rightarrow> counters \<Rightarrow> number \<times> counters" where
  "subtract_counted x y c = (subtract x y, c\<lparr>subtractions := Suc (subtractions c)\<rparr>)"

fun multiply_counted ::
  "nat \<Rightarrow> number \<Rightarrow> number \<Rightarrow> number option \<Rightarrow> counters \<Rightarrow> (error + number) \<times> counters" where
  "multiply_counted 0 a b base_arg c = (Inl RangeError, c)"
| "multiply_counted (Suc depth) a b base_arg c =
     (let base = default_base a base_arg
      in if number_le b (Finite 1) then (Inr a, c)
         else if depth = 0 then (Inl RangeError, c)
         else (let r1 = add_counted a base c;
                   r2 = subtract_counted b (Finite 1) (snd r1);
                   c' = snd r2
               in multiply_counted depth (fst r1) (fst r2) (Some base)
                    (c'\<lparr>recursive_steps := Suc (recursive_steps c')\<rparr>)))"

definition no_operations :: counters where
  "no_operations = \<lparr>additions = 0, subtractions = 0, recursive_steps = 0\<rparr>"

subsection \<open>The body over an ambient state\<close>

text \<open>
  To speak about effects, the body is evaluated over an ambient state \<open>'s\<close> that the two
  imported functions may read and change; they are parameters here. The body of
  \<open>multiply\<close> itself names no variable other than its parameters and the three
  module-level constants, so it passes the state on as it gets it.
\<close>

type_synonym 's binop = "number \<Rightarrow> number \<Rightarrow> 's \<Rightarrow> number \<times> 's"

inductive multiply_in ::
  "'s binop \<Rightarrow> 's binop \<Rightarrow> number \<Rightarrow> number \<Rightarrow> number option \<Rightarrow> 's \<Rightarrow> number \<times> 's \<Rightarrow> bool"
  for add_impl :: "'s binop" and subtract_impl :: "'s binop" where
  multiply_return:
    "number_le b (Finite 1) \<Longrightarrow> multiply_in add_impl subtract_impl a b base_arg s (a, s)"
| multiply_recurse:
    "\<not> number_le b (Finite 1) \<Longrightarrow> base = default_base a base_arg \<Longrightarrow>
     add_impl a base s = (x, s1) \<Longrightarrow>
     subtract_impl b (Finite 1) s1 = (y, s2) \<Longrightarrow>
     multiply_in add_impl subtract_impl x y (Some base) s2 out \<Longrightarrow>
     multiply_in add_impl subtract_impl a b base_arg s out"

text \<open>
  An imported function is pure when it leaves the state as it is and its value does not
  depend on the state.
\<close>

definition pure_binop :: "'s binop \<Rightarrow> bool" where
  "pure_binop f \<longleftrightarrow> (\<forall>x y s s'. snd (f x y s) = s \<and> fst (f x y s) = fst (f x y s'))"

definition add_in :: "'s binop" where
  "add_in x y s = (add x y, s)"

definition subtract_in :: "'s binop" where
  "subtract_in x y s = (subtract x y, s)"

subsection \<open>The specification's reading of a product\<close>

text \<open>\<open>a\<close> added to itself \<open>b\<close> times: the sum of \<open>b\<close> copies of \<open>a\<close>.\<close>

definition repeated_sum :: "int \<Rightarrow> int \<Rightarrow> int" where
  "repeated_sum a b = sum_list (replicate (nat b) a)"

section \<open>Arithmetic within the exact range\<close>

lemma bit_length_le: "n < 2 ^ k \<Longrightarrow> bit_length n \<le> k"
proof (induction k arbitrary: n)
  case 0
  then have "n \<le> 0" by simp
  then show ?case by (subst bit_length.simps) simp
next
  case (Suc k)
  show ?case
  proof (cases "n \<le> 0")
    case True
    then show ?thesis by (subst bit_length.simps) simp
  next
    case False
    from Suc.prems have "n div 2 < 2 ^ k" by simp
    then have "bit_length (n div 2) \<le> k" by (rule Suc.IH)
    with False show ?thesis by (subst bit_length.simps) simp
  qed
qed

lemma round_magnitude_top: "round_magnitude (2 ^ 53) = 2 ^ 53"
  by code_simp

lemma round_magnitude_exact: "m \<le> 2 ^ 53 \<Longrightarrow> round_magnitude m = m"
proof (cases "m = 2 ^ 53")
  case True
  then show ?thesis by (simp only: round_magnitude_top)
next
  case False
  assume "m \<le> 2 ^ 53"
  with False have "m < 2 ^ 53" by simp
  then have "bit_length m \<le> 53" by (rule bit_length_le)
  then show ?thesis by (simp add: round_magnitude_def)
qed

lemma round_number_exact: "\<bar>n\<bar> \<le> 2 ^ 53 \<Longrightarrow> round_number n = Finite n"
proof -
  assume le: "\<bar>n\<bar> \<le> 2 ^ 53"
  then have m: "round_magnitude \<bar>n\<bar> = \<bar>n\<bar>" by (rule round_magnitude_exact)
  have "(2::int) ^ 53 < 2 ^ 1024" by simp
  with le have "\<not> 2 ^ 1024 \<le> \<bar>n\<bar>" by linarith
  then show ?thesis by (auto simp add: round_number_def m Let_def)
qed

lemma add_exact: "\<bar>x + y\<bar> \<le> 2 ^ 53 \<Longrightarrow> add (Finite x) (Finite y) = Finite (x + y)"
  by (simp add: round_number_exact)

lemma subtract_one_exact:
  "1 \<le> b \<Longrightarrow> b \<le> 2 ^ 53 \<Longrightarrow> subtract (Finite b) (Finite 1) = Finite (b - 1)"
proof -
  assume "1 \<le> b" and "b \<le> 2 ^ 53"
  then have "\<bar>b - 1\<bar> \<le> 2 ^ 53" by simp
  then show ?thesis by (simp add: round_number_exact)
qed

lemma between_endpoints:
  fixes a c k M :: int
  assumes "1 \<le> k" and "\<bar>a\<bar> \<le> M" and "\<bar>a + c * k\<bar> \<le> M"
  shows "\<bar>a + c\<bar> \<le> M"
proof (cases "0 \<le> c")
  case True
  with assms(1) have "c * 1 \<le> c * k" by (intro mult_left_mono) simp_all
  then have "c \<le> c * k" by simp
  with assms(2,3) True show ?thesis by linarith
next
  case False
  with assms(1) have "c * k \<le> c * 1" by (intro mult_left_mono_neg) simp_all
  then have "c * k \<le> c" by simp
  with assms(2,3) False show ?thesis by linarith
qed

lemma repeated_sum_eq: "0 \<le> b \<Longrightarrow> repeated_sum a b = a * b"
  by (simp add: repeated_sum_def sum_list_replicate)

section \<open>Basic facts\<close>

lemma default_base_simps [simp]:
  "default_base a None = a"
  "default_base a (Some v) = v"
  by (simp_all add: default_base_def)

lemma multiply_stop:
  "number_le b (Finite 1) \<Longrightarrow> multiply (Suc depth) a b base_arg = Inr a"
  by simp

lemma multiply_step:
  "\<not> number_le b (Finite 1) \<Longrightarrow>
   multiply (Suc depth) a b base_arg =
     multiply depth (add a (default_base a base_arg)) (subtract b (Finite 1))
       (Some (default_base a base_arg))"
  by (simp add: Let_def)

lemma multiply_default:
  "multiply depth a b base_arg = multiply depth a b (Some (default_base a base_arg))"
  by (cases depth) simp_all

lemma multiply_mono:
  "multiply depth a b base_arg = Inr r \<Longrightarrow> depth \<le> depth' \<Longrightarrow>
   multiply depth' a b base_arg = Inr r"
proof (induction depth arbitrary: depth' a b base_arg)
  case 0
  then show ?case by simp
next
  case (Suc depth)
  from Suc.prems(2) obtain d where d: "depth' = Suc d" "depth \<le> d"
    by (cases depth') simp_all
  show ?case
  proof (cases "number_le b (Finite 1)")
    case True
    with Suc.prems(1) d show ?thesis by simp
  next
    case False
    with Suc.prems(1) have
      "multiply depth (add a (default_base a base_arg)) (subtract b (Finite 1))
         (Some (default_base a base_arg)) = Inr r"
      by (simp add: Let_def)
    from Suc.IH [OF this d(2)] False d(1) show ?thesis by (simp add: Let_def)
  qed
qed

lemma multiply_partial_of_multiply:
  "multiply depth a b base_arg = Inr r \<Longrightarrow> multiply_partial a b base_arg = Some r"
proof (induction depth arbitrary: a b base_arg)
  case 0
  then show ?case by simp
next
  case (Suc depth)
  show ?case
  proof (cases "number_le b (Finite 1)")
    case True
    with Suc.prems show ?thesis by (subst multiply_partial.simps) simp
  next
    case False
    with Suc.prems have
      "multiply depth (add a (default_base a base_arg)) (subtract b (Finite 1))
         (Some (default_base a base_arg)) = Inr r"
      by (simp add: Let_def)
    from Suc.IH [OF this] False show ?thesis
      by (subst multiply_partial.simps) (simp add: Let_def)
  qed
qed

lemma multiply_returns:
  "b \<le> 2 ^ 53 \<Longrightarrow> nat b \<le> depth \<Longrightarrow> 0 < depth \<Longrightarrow>
   \<exists>r. multiply depth a (Finite b) base_arg = Inr r"
proof (induction depth arbitrary: a b base_arg)
  case 0
  then show ?case by simp
next
  case (Suc depth)
  show ?case
  proof (cases "b \<le> 1")
    case True
    then show ?thesis by simp
  next
    case False
    then have sub: "subtract (Finite b) (Finite 1) = Finite (b - 1)"
      using Suc.prems(1) by (intro subtract_one_exact) simp_all
    from False Suc.prems have "b - 1 \<le> 2 ^ 53" "nat (b - 1) \<le> depth" "0 < depth"
      by simp_all
    from Suc.IH [OF this] False sub show ?thesis by (simp add: Let_def)
  qed
qed

lemma multiply_exact:
  "b \<le> 2 ^ 53 \<Longrightarrow> \<bar>a\<bar> \<le> 2 ^ 53 \<Longrightarrow> \<bar>a + base * (b - 1)\<bar> \<le> 2 ^ 53 \<Longrightarrow>
   nat b \<le> depth \<Longrightarrow> 0 < depth \<Longrightarrow>
   multiply depth (Finite a) (Finite b) (Some (Finite base)) =
     Inr (Finite (if b \<le> 1 then a else a + base * (b - 1)))"
proof (induction depth arbitrary: a b)
  case 0
  then show ?case by simp
next
  case (Suc depth)
  show ?case
  proof (cases "b \<le> 1")
    case True
    then show ?thesis by simp
  next
    case False
    then have k: "1 \<le> b - 1" by simp
    have sub: "subtract (Finite b) (Finite 1) = Finite (b - 1)"
      using False Suc.prems(1) by (intro subtract_one_exact) simp_all
    have "\<bar>a + base\<bar> \<le> 2 ^ 53"
      using k Suc.prems(2,3) by (rule between_endpoints)
    then have ad: "add (Finite a) (Finite base) = Finite (a + base)"
      by (rule add_exact)
    have "a + base + base * (b - 1 - 1) = a + base * (b - 1)"
      by (simp add: algebra_simps)
    with Suc.prems(3) have "\<bar>a + base + base * (b - 1 - 1)\<bar> \<le> 2 ^ 53" by simp
    moreover from False Suc.prems have "b - 1 \<le> 2 ^ 53" "nat (b - 1) \<le> depth" "0 < depth"
      by simp_all
    ultimately have ih: "multiply depth (Finite (a + base)) (Finite (b - 1)) (Some (Finite base)) =
        Inr (Finite (if b - 1 \<le> 1 then a + base else a + base + base * (b - 1 - 1)))"
      using \<open>\<bar>a + base\<bar> \<le> 2 ^ 53\<close> by (intro Suc.IH)
    have val: "(if b - 1 \<le> 1 then a + base else a + base + base * (b - 1 - 1)) =
        a + base * (b - 1)"
      using False by (cases "b = 2") (simp_all add: algebra_simps)
    have "multiply (Suc depth) (Finite a) (Finite b) (Some (Finite base)) =
        multiply depth (add (Finite a) (Finite base)) (subtract (Finite b) (Finite 1))
          (Some (Finite base))"
      using False by (subst multiply_step) simp_all
    also have "\<dots> = multiply depth (Finite (a + base)) (Finite (b - 1)) (Some (Finite base))"
      by (simp only: ad sub)
    also have "\<dots> = Inr (Finite (a + base * (b - 1)))"
      by (simp only: ih val)
    finally show ?thesis using False by simp
  qed
qed

lemma multiply_product:
  assumes "1 \<le> b" and "b \<le> 2 ^ 53" and "\<bar>a * b\<bar> \<le> 2 ^ 53" and "nat b \<le> depth"
  shows "multiply depth (Finite a) (Finite b) None = Inr (Finite (a * b))"
proof -
  have "\<bar>a\<bar> * 1 \<le> \<bar>a\<bar> * \<bar>b\<bar>"
    using assms(1) by (intro mult_left_mono) simp_all
  with assms(3) have a: "\<bar>a\<bar> \<le> 2 ^ 53" by (simp add: abs_mult)
  have eq: "a + a * (b - 1) = a * b" by (simp add: algebra_simps)
  with assms(3) have "\<bar>a + a * (b - 1)\<bar> \<le> 2 ^ 53" by simp
  moreover from assms(1,4) have "0 < depth" by linarith
  ultimately have "multiply depth (Finite a) (Finite b) (Some (Finite a)) =
      Inr (Finite (if b \<le> 1 then a else a + a * (b - 1)))"
    using assms(2,4) a by (intro multiply_exact)
  also have "(if b \<le> 1 then a else a + a * (b - 1)) = a * b"
    using assms(1) eq by (cases "b = 1") simp_all
  finally show ?thesis by (subst multiply_default) simp
qed

lemma multiply_partial_stuck:
  assumes "subtract b (Finite 1) = b" and "\<not> number_le b (Finite 1)"
  shows "multiply_partial a b base_arg = None"
proof -
  have "\<not> (subtract b' (Finite 1) = b' \<and> \<not> number_le b' (Finite 1))"
    if run: "multiply_partial a' b' base_arg' = Some r'" for a' b' base_arg' r'
  proof (rule multiply_partial.raw_induct
      [where P = "\<lambda>a b base_arg r. \<not> (subtract b (Finite 1) = b \<and> \<not> number_le b (Finite 1))",
        OF _ run])
    fix f :: "number \<Rightarrow> number \<Rightarrow> number option \<Rightarrow> number option"
    fix a b base_arg r
    assume ih: "\<And>a b base_arg r. f a b base_arg = Some r \<Longrightarrow>
        \<not> (subtract b (Finite 1) = b \<and> \<not> number_le b (Finite 1))"
    assume body: "(let base = default_base a base_arg
        in if number_le b (Finite 1) then Some a
           else f (add a base) (subtract b (Finite 1)) (Some base)) = Some r"
    show "\<not> (subtract b (Finite 1) = b \<and> \<not> number_le b (Finite 1))"
    proof
      assume stuck: "subtract b (Finite 1) = b \<and> \<not> number_le b (Finite 1)"
      with body have
        "f (add a (default_base a base_arg)) b (Some (default_base a base_arg)) = Some r"
        by (simp add: Let_def)
      from ih [OF this] stuck show False by simp
    qed
  qed
  with assms show ?thesis by (cases "multiply_partial a b base_arg") auto
qed

section \<open>Facts about the invocations\<close>

lemma multiply_trace_default:
  "multiply_trace depth a b base_arg =
   multiply_trace depth a b (Some (default_base a base_arg))"
  by (cases depth) simp_all

lemma multiply_trace_base:
  "f \<in> set (multiply_trace depth a b base_arg) \<Longrightarrow> frame_base f = default_base a base_arg"
proof (induction depth arbitrary: a b base_arg)
  case 0
  then show ?case by simp
next
  case (Suc depth)
  show ?case
  proof (cases "number_le b (Finite 1)")
    case True
    with Suc.prems show ?thesis by (simp add: Let_def)
  next
    case False
    with Suc.prems Suc.IH show ?thesis by (auto simp add: Let_def)
  qed
qed

lemma multiply_trace_length:
  "b \<le> 2 ^ 53 \<Longrightarrow> nat b \<le> depth \<Longrightarrow> 0 < depth \<Longrightarrow>
   length (multiply_trace depth a (Finite b) base_arg) = max 1 (nat b)"
proof (induction depth arbitrary: a b base_arg)
  case 0
  then show ?case by simp
next
  case (Suc depth)
  show ?case
  proof (cases "b \<le> 1")
    case True
    then show ?thesis by simp
  next
    case False
    then have sub: "subtract (Finite b) (Finite 1) = Finite (b - 1)"
      using Suc.prems(1) by (intro subtract_one_exact) simp_all
    from False Suc.prems have "b - 1 \<le> 2 ^ 53" "nat (b - 1) \<le> depth" "0 < depth"
      by simp_all
    from Suc.IH [OF this] False sub show ?thesis by (simp add: Let_def)
  qed
qed

lemma multiply_trace_drop:
  "i < length (multiply_trace depth a b base_arg) \<Longrightarrow>
   drop i (multiply_trace depth a b base_arg) =
     multiply_trace (depth - i)
       (frame_a (multiply_trace depth a b base_arg ! i))
       (frame_b (multiply_trace depth a b base_arg ! i))
       (Some (frame_base (multiply_trace depth a b base_arg ! i)))"
proof (induction depth arbitrary: i a b base_arg)
  case 0
  then show ?case by simp
next
  case (Suc depth)
  show ?case
  proof (cases i)
    case 0
    have "multiply_trace (Suc depth) a b base_arg ! 0 =
        \<lparr>frame_a = a, frame_b = b, frame_base = default_base a base_arg\<rparr>"
      by (simp add: Let_def)
    with 0 show ?thesis
      using multiply_trace_default [of "Suc depth" a b base_arg] by simp
  next
    case (Suc j)
    with Suc.prems have rec: "\<not> number_le b (Finite 1)"
      by (cases "number_le b (Finite 1)") (simp_all add: Let_def)
    let ?rest = "multiply_trace depth (add a (default_base a base_arg))
        (subtract b (Finite 1)) (Some (default_base a base_arg))"
    from Suc.prems Suc have "j < length ?rest" by (simp add: Let_def rec)
    from Suc.IH [OF this] Suc show ?thesis by (simp add: Let_def rec)
  qed
qed

section \<open>Facts about the counters\<close>

lemma multiply_counted_value:
  "fst (multiply_counted depth a b base_arg c) = multiply depth a b base_arg"
proof (induction depth arbitrary: a b base_arg c)
  case 0
  show ?case by simp
next
  case (Suc depth)
  show ?case
  proof (cases "number_le b (Finite 1)")
    case True
    then show ?thesis by simp
  next
    case False
    show ?thesis
    proof (cases "depth = 0")
      case True
      with False show ?thesis by (simp add: Let_def)
    next
      case nonzero: False
      with False Suc.IH show ?thesis
        by (simp add: Let_def add_counted_def subtract_counted_def)
    qed
  qed
qed

lemma multiply_counted_step:
  "\<not> number_le b (Finite 1) \<Longrightarrow> 0 < depth \<Longrightarrow>
   multiply_counted (Suc depth) a b base_arg c =
     multiply_counted depth (add a (default_base a base_arg)) (subtract b (Finite 1))
       (Some (default_base a base_arg))
       (c\<lparr>additions := Suc (additions c), subtractions := Suc (subtractions c),
        recursive_steps := Suc (recursive_steps c)\<rparr>)"
  by (simp add: Let_def add_counted_def subtract_counted_def)

lemma multiply_counted_exact:
  "1 \<le> b \<Longrightarrow> b \<le> 2 ^ 53 \<Longrightarrow> nat b \<le> depth \<Longrightarrow>
   snd (multiply_counted depth a (Finite b) base_arg c) =
     \<lparr>additions = additions c + nat (b - 1),
      subtractions = subtractions c + nat (b - 1),
      recursive_steps = recursive_steps c + nat (b - 1)\<rparr>"
proof (induction depth arbitrary: a b base_arg c)
  case 0
  then show ?case by simp
next
  case (Suc depth)
  show ?case
  proof (cases "b = 1")
    case True
    then show ?thesis by simp
  next
    case False
    with Suc.prems have b2: "2 \<le> b" by simp
    then have rec: "\<not> number_le (Finite b) (Finite 1)" by simp
    from b2 Suc.prems(3) have pos: "0 < depth" by linarith
    have sub: "subtract (Finite b) (Finite 1) = Finite (b - 1)"
      using b2 Suc.prems(2) by (intro subtract_one_exact) simp_all
    let ?c = "c\<lparr>additions := Suc (additions c), subtractions := Suc (subtractions c),
        recursive_steps := Suc (recursive_steps c)\<rparr>"
    from b2 Suc.prems have "1 \<le> b - 1" "b - 1 \<le> 2 ^ 53" "nat (b - 1) \<le> depth"
      by simp_all
    note ih = Suc.IH [OF this, of "add a (default_base a base_arg)"
        "Some (default_base a base_arg)" ?c]
    have n: "nat (b - 1) = Suc (nat (b - 1 - 1))"
      using b2 by simp
    have "multiply_counted (Suc depth) a (Finite b) base_arg c =
        multiply_counted depth (add a (default_base a base_arg))
          (Finite (b - 1)) (Some (default_base a base_arg)) ?c"
      by (simp only: multiply_counted_step [OF rec pos] sub)
    then show ?thesis
      by (simp only: ih) (simp add: n)
  qed
qed

lemma multiply_counted_stuck:
  "subtract b (Finite 1) = b \<Longrightarrow> \<not> number_le b (Finite 1) \<Longrightarrow>
   multiply_counted (Suc depth) a b base_arg c =
     (Inl RangeError,
      \<lparr>additions = additions c + depth, subtractions = subtractions c + depth,
       recursive_steps = recursive_steps c + depth\<rparr>)"
proof (induction depth arbitrary: a base_arg c)
  case 0
  then show ?case by simp
next
  case (Suc depth)
  let ?c = "c\<lparr>additions := Suc (additions c), subtractions := Suc (subtractions c),
      recursive_steps := Suc (recursive_steps c)\<rparr>"
  have "multiply_counted (Suc (Suc depth)) a b base_arg c =
      multiply_counted (Suc depth) (add a (default_base a base_arg)) b
        (Some (default_base a base_arg)) ?c"
    using multiply_counted_step [OF Suc.prems(2), of "Suc depth" a base_arg c] Suc.prems(1)
    by simp
  also have "\<dots> = (Inl RangeError,
      \<lparr>additions = additions ?c + depth, subtractions = subtractions ?c + depth,
       recursive_steps = recursive_steps ?c + depth\<rparr>)"
    using Suc.prems by (rule Suc.IH)
  finally show ?case by simp
qed

section \<open>Facts about the body over a state\<close>

lemma pure_binop_add_in: "pure_binop add_in"
  by (simp add: pure_binop_def add_in_def)

lemma pure_binop_subtract_in: "pure_binop subtract_in"
  by (simp add: pure_binop_def subtract_in_def)

lemma pure_binopD:
  "pure_binop f \<Longrightarrow> f x y s = (v, s') \<Longrightarrow> s' = s \<and> v = fst (f x y t)"
  unfolding pure_binop_def by (metis fst_conv snd_conv)

lemma multiply_in_of_multiply:
  "multiply depth a b base_arg = Inr r \<Longrightarrow>
   multiply_in add_in subtract_in a b base_arg s (r, s)"
proof (induction depth arbitrary: a b base_arg)
  case 0
  then show ?case by simp
next
  case (Suc depth)
  show ?case
  proof (cases "number_le b (Finite 1)")
    case True
    with Suc.prems have "r = a" by simp
    with True show ?thesis by (simp add: multiply_return)
  next
    case False
    with Suc.prems have
      "multiply depth (add a (default_base a base_arg)) (subtract b (Finite 1))
         (Some (default_base a base_arg)) = Inr r"
      by (simp add: Let_def)
    then have "multiply_in add_in subtract_in (add a (default_base a base_arg))
        (subtract b (Finite 1)) (Some (default_base a base_arg)) s (r, s)"
      by (rule Suc.IH)
    moreover have "add_in a (default_base a base_arg) s = (add a (default_base a base_arg), s)"
      by (simp add: add_in_def)
    moreover have "subtract_in b (Finite 1) s = (subtract b (Finite 1), s)"
      by (simp add: subtract_in_def)
    ultimately show ?thesis
      using False multiply_recurse [of b _ a base_arg add_in s _ s subtract_in _ s] by blast
  qed
qed

lemma multiply_in_state:
  assumes "pure_binop add_impl" and "pure_binop subtract_impl"
    and "multiply_in add_impl subtract_impl a b base_arg s out"
  shows "snd out = s"
  using assms(3)
proof (induction rule: multiply_in.induct)
  case (multiply_return b a base_arg s)
  show ?case by simp
next
  case (multiply_recurse b base a base_arg s x s1 y s2 out)
  from pure_binopD [OF assms(1) multiply_recurse.hyps(3)] have "s1 = s" by simp
  moreover from pure_binopD [OF assms(2) multiply_recurse.hyps(4)] have "s2 = s1" by simp
  ultimately show ?case using multiply_recurse.IH by simp
qed

lemma multiply_in_value:
  assumes "pure_binop add_impl" and "pure_binop subtract_impl"
    and "multiply_in add_impl subtract_impl a b base_arg s out"
    and "multiply_in add_impl subtract_impl a b base_arg s' out'"
  shows "fst out' = fst out"
  using assms(3,4)
proof (induction arbitrary: s' out' rule: multiply_in.induct)
  case (multiply_return b a base_arg s)
  from multiply_return.prems multiply_return.hyps show ?case
    by (cases rule: multiply_in.cases) simp_all
next
  case (multiply_recurse b base a base_arg s x s1 y s2 out)
  from multiply_recurse.prems show ?case
  proof (cases rule: multiply_in.cases)
    case multiply_return
    with multiply_recurse.hyps(1) show ?thesis by simp
  next
    case (multiply_recurse base' x' t1 y' t2)
    have "x' = x"
      using pure_binopD [OF assms(1) multiply_recurse(3), of s]
        \<open>add_impl a base s = (x, s1)\<close> \<open>base = default_base a base_arg\<close>
        multiply_recurse(2) by simp
    moreover have "y' = y"
      using pure_binopD [OF assms(2) multiply_recurse(4), of s1]
        \<open>subtract_impl b (Finite 1) s1 = (y, s2)\<close> by simp
    ultimately show ?thesis
      using multiply_recurse.IH [of t2 out'] multiply_recurse(5) multiply_recurse(2)
        \<open>base = default_base a base_arg\<close> by simp
  qed
qed

section \<open>The claims\<close>

subsection \<open>Values\<close>

text \<open>
  C1, as stated: for all non-negative integers \<open>a\<close> and \<open>b \<ge> 1\<close>, \<open>multiply(a, b)\<close> is the
  product \<open>a * b\<close>. The third partial sum of \<open>multiply(9007199254740991, 3)\<close> is not
  representable and is rounded.
\<close>

theorem multiply_rounded_product_counterexample:
  "representable 9007199254740991 \<and>
   multiply 3 (Finite 9007199254740991) (Finite 3) None = Inr (Finite 27021597764222972) \<and>
   multiply 3 (Finite 9007199254740991) (Finite 3) None \<noteq> Inr (Finite (9007199254740991 * 3))"
  by code_simp

text \<open>
  C1, amended: for non-negative integers \<open>a\<close> and \<open>b\<close> with \<open>1 \<le> b \<le> 2^53\<close> and
  \<open>a * b \<le> 2^53\<close>, on a stack with room for \<open>b\<close> frames, \<open>multiply(a, b)\<close> is \<open>a\<close> added
  to itself \<open>b\<close> times, which is the product \<open>a * b\<close>; and \<open>multiply(a, 0)\<close> is \<open>a\<close>, not \<open>0\<close>.
\<close>

theorem multiply_nonneg_product:
  assumes "0 \<le> a" and "1 \<le> b" and "b \<le> 2 ^ 53" and "a * b \<le> 2 ^ 53" and "nat b \<le> depth"
  shows "multiply depth (Finite a) (Finite b) None = Inr (Finite (repeated_sum a b)) \<and>
         multiply depth (Finite a) (Finite b) None = Inr (Finite (a * b)) \<and>
         multiply depth (Finite a) (Finite 0) None = Inr (Finite a)"
proof -
  from assms(1,2) have "0 \<le> a * b" by simp
  with assms(4) have "\<bar>a * b\<bar> \<le> 2 ^ 53" by simp
  with assms(2,3,5) have prod: "multiply depth (Finite a) (Finite b) None = Inr (Finite (a * b))"
    by (intro multiply_product)
  from assms(2) have "repeated_sum a b = a * b"
    by (intro repeated_sum_eq) simp
  moreover from assms(2,5) obtain d where "depth = Suc d"
    by (cases depth) simp_all
  then have "multiply depth (Finite a) (Finite 0) None = Inr (Finite a)"
    by simp
  ultimately show ?thesis using prod by simp
qed

theorem multiply_nonneg_product_witness:
  "(0::int) \<le> 3 \<and> (1::int) \<le> 4 \<and> (4::int) \<le> 2 ^ 53 \<and> (3::int) * 4 \<le> 2 ^ 53 \<and> nat 4 \<le> 4 \<and>
   multiply 4 (Finite 3) (Finite 4) None = Inr (Finite (repeated_sum 3 4)) \<and>
   multiply 4 (Finite 3) (Finite 4) None = Inr (Finite 12) \<and>
   multiply 4 (Finite 3) (Finite 0) None = Inr (Finite 3)"
  using multiply_nonneg_product [of 3 4 4] by (simp add: repeated_sum_eq)

text \<open>
  C2, as stated: for every integer \<open>a\<close> and every non-negative \<open>b\<close>, \<open>multiply(a, b)\<close> is
  \<open>a * b\<close>. This fails at \<open>b = 0\<close>, where the guard \<open>b \<le> 1\<close> returns \<open>a\<close>, and where a
  partial sum is rounded.
\<close>

theorem multiply_zero_count_counterexample:
  "multiply 1 (Finite 3) (Finite 0) None = Inr (Finite 3) \<and>
   multiply 1 (Finite 3) (Finite 0) None \<noteq> Inr (Finite (3 * 0)) \<and>
   representable (- 9007199254740991) \<and>
   multiply 3 (Finite (- 9007199254740991)) (Finite 3) None = Inr (Finite (- 27021597764222972)) \<and>
   multiply 3 (Finite (- 9007199254740991)) (Finite 3) None \<noteq>
     Inr (Finite (- 9007199254740991 * 3))"
  by code_simp

text \<open>
  C2, amended: for every integer \<open>a\<close> and every integer \<open>b\<close> with \<open>0 \<le> b \<le> 2^53\<close> and
  \<open>|a * b| \<le> 2^53\<close>, on a stack with room for \<open>b\<close> frames (one frame when \<open>b = 0\<close>),
  \<open>multiply(a, b)\<close> is \<open>a * b\<close> when \<open>b \<ge> 1\<close>, and is \<open>a\<close> when \<open>b = 0\<close>.
\<close>

theorem multiply_product_from_one:
  assumes "0 \<le> b" and "b \<le> 2 ^ 53" and "\<bar>a * b\<bar> \<le> 2 ^ 53" and "max 1 (nat b) \<le> depth"
  shows "multiply depth (Finite a) (Finite b) None = Inr (Finite (if b = 0 then a else a * b))"
proof (cases "b = 0")
  case True
  from assms(4) obtain d where "depth = Suc d"
    by (cases depth) simp_all
  with True show ?thesis by simp
next
  case False
  with assms(1) have "1 \<le> b" by simp
  moreover from assms(4) have "nat b \<le> depth" by simp
  ultimately have "multiply depth (Finite a) (Finite b) None = Inr (Finite (a * b))"
    using assms(2,3) by (intro multiply_product)
  with False show ?thesis by simp
qed

theorem multiply_product_from_one_witness:
  "(0::int) \<le> 4 \<and> (4::int) \<le> 2 ^ 53 \<and> \<bar>- 3 * 4 :: int\<bar> \<le> 2 ^ 53 \<and> max 1 (nat 4) \<le> 4 \<and>
   multiply 4 (Finite (- 3)) (Finite 4) None = Inr (Finite (- 12))"
  using multiply_product_from_one [of 4 "- 3" 4] by simp

text \<open>
  C3. Whatever \<open>a\<close> and \<open>base\<close> are (and whether or not \<open>base\<close> is supplied), a count
  \<open>b \<le> 1\<close>, which includes \<open>0\<close>, \<open>1\<close> and every negative count, makes \<open>multiply\<close> return
  the accumulator \<open>a\<close> unchanged, on any stack that has room for the call itself.
\<close>

theorem multiply_terminal_returns_accumulator:
  "number_le b (Finite 1) \<Longrightarrow>
   multiply (Suc depth) a b base_arg = Inr a \<and> multiply_partial a b base_arg = Some a"
  by (subst multiply_partial.simps) simp

theorem multiply_terminal_returns_accumulator_witness:
  "number_le (Finite (- 3)) (Finite 1) \<and>
   multiply (Suc 0) (Finite 7) (Finite (- 3)) (Some (Finite 5)) = Inr (Finite 7) \<and>
   multiply_partial (Finite 7) (Finite (- 3)) (Some (Finite 5)) = Some (Finite 7)"
  using multiply_terminal_returns_accumulator [of "Finite (- 3)" 0 "Finite 7" "Some (Finite 5)"]
  by simp

text \<open>
  C8. The ten scenarios of the test fixture that the specification lists, on any stack
  with room for ten frames or more.
\<close>

theorem multiply_fixture_scenarios:
  "multiply (10 + k) (Finite 2) (Finite 2) None = Inr (Finite 4) \<and>
   multiply (10 + k) (Finite 4) (Finite 2) None = Inr (Finite 8) \<and>
   multiply (10 + k) (Finite 16) (Finite 2) None = Inr (Finite 32) \<and>
   multiply (10 + k) (Finite 2) (Finite 4) None = Inr (Finite 8) \<and>
   multiply (10 + k) (Finite 4) (Finite 4) None = Inr (Finite 16) \<and>
   multiply (10 + k) (Finite 16) (Finite 4) None = Inr (Finite 64) \<and>
   multiply (10 + k) (Finite 2) (Finite 5) None = Inr (Finite 10) \<and>
   multiply (10 + k) (Finite 16) (Finite 5) None = Inr (Finite 80) \<and>
   multiply (10 + k) (Finite 2) (Finite 10) None = Inr (Finite 20) \<and>
   multiply (10 + k) (Finite 16) (Finite 10) None = Inr (Finite 160)"
proof -
  have more: "multiply (10 + k) a b None = Inr r" if "multiply 10 a b None = Inr r" for a b r
    using that by (rule multiply_mono) simp
  have "multiply 10 (Finite 2) (Finite 2) None = Inr (Finite 4)"
    "multiply 10 (Finite 4) (Finite 2) None = Inr (Finite 8)"
    "multiply 10 (Finite 16) (Finite 2) None = Inr (Finite 32)"
    "multiply 10 (Finite 2) (Finite 4) None = Inr (Finite 8)"
    "multiply 10 (Finite 4) (Finite 4) None = Inr (Finite 16)"
    "multiply 10 (Finite 16) (Finite 4) None = Inr (Finite 64)"
    "multiply 10 (Finite 2) (Finite 5) None = Inr (Finite 10)"
    "multiply 10 (Finite 16) (Finite 5) None = Inr (Finite 80)"
    "multiply 10 (Finite 2) (Finite 10) None = Inr (Finite 20)"
    "multiply 10 (Finite 16) (Finite 10) None = Inr (Finite 160)"
    by code_simp+
  then show ?thesis by (intro conjI more)
qed

subsection \<open>Termination\<close>

text \<open>
  C4, as stated: for a negative count the call recurses without bound and never
  returns. On the unbounded stack, where not returning is the value \<open>None\<close>, the call
  \<open>multiply(3, -2)\<close> returns \<open>3\<close>.
\<close>

theorem multiply_negative_count_counterexample:
  "multiply_partial (Finite 3) (Finite (- 2)) None = Some (Finite 3) \<and>
   multiply_partial (Finite 3) (Finite (- 2)) None \<noteq> None"
  by (subst multiply_partial.simps, simp)+

text \<open>
  C4, amended: for every integer \<open>a\<close> and every negative \<open>b\<close>, the call \<open>multiply(a, b)\<close>
  returns \<open>a\<close> at once: the first invocation is the only one.
\<close>

theorem multiply_negative_count_returns:
  "b < 0 \<Longrightarrow>
   multiply_partial (Finite a) (Finite b) None = Some (Finite a) \<and>
   multiply (Suc depth) (Finite a) (Finite b) None = Inr (Finite a) \<and>
   multiply_trace (Suc depth) (Finite a) (Finite b) None =
     [\<lparr>frame_a = Finite a, frame_b = Finite b, frame_base = Finite a\<rparr>]"
  by (subst multiply_partial.simps) simp

theorem multiply_negative_count_returns_witness:
  "(- 7::int) < 0 \<and> multiply_partial (Finite 5) (Finite (- 7)) None = Some (Finite 5) \<and>
   multiply (Suc 0) (Finite 5) (Finite (- 7)) None = Inr (Finite 5) \<and>
   multiply_trace (Suc 0) (Finite 5) (Finite (- 7)) None =
     [\<lparr>frame_a = Finite 5, frame_b = Finite (- 7), frame_base = Finite 5\<rparr>]"
  using multiply_negative_count_returns [of "- 7" 5 0] by simp

text \<open>
  C10, as stated: the call terminates for all integer arguments, because the count
  falls by one with each recursive call. The count \<open>2^54 = 18014398509481984\<close> is an
  integer-valued Number, and \<open>2^54 - 1\<close> rounds back to it: on the unbounded stack the
  call never returns.
\<close>

theorem multiply_large_count_counterexample:
  "representable 18014398509481984 \<and>
   subtract (Finite 18014398509481984) (Finite 1) = Finite 18014398509481984 \<and>
   multiply_partial (Finite 1) (Finite 18014398509481984) None = None"
proof -
  have r: "representable 18014398509481984"
    by code_simp
  have s: "subtract (Finite 18014398509481984) (Finite 1) = Finite 18014398509481984"
    by code_simp
  have "\<not> number_le (Finite 18014398509481984) (Finite 1)"
    by simp
  with s have "multiply_partial (Finite 1) (Finite 18014398509481984) None = None"
    by (rule multiply_partial_stuck)
  with r s show ?thesis by (simp only: simp_thms)
qed

text \<open>
  C10, amended: for all \<open>a\<close> and \<open>base\<close> and every integer count \<open>b \<le> 2^53\<close>, negative
  counts included, the call returns: the count falls by exactly one with each
  recursive call until the guard \<open>b \<le> 1\<close> holds. It makes \<open>b\<close> invocations, or one when
  \<open>b \<le> 1\<close>, and a stack with room for that many frames is enough.
\<close>

theorem multiply_returns_for_exact_counts:
  assumes "b \<le> 2 ^ 53" and "max 1 (nat b) \<le> depth"
  shows "(\<exists>r. multiply depth a (Finite b) base_arg = Inr r \<and>
              multiply_partial a (Finite b) base_arg = Some r) \<and>
         length (multiply_trace depth a (Finite b) base_arg) = max 1 (nat b)"
proof -
  from assms(2) have d: "nat b \<le> depth" "0 < depth" by simp_all
  from multiply_returns [OF assms(1) d] obtain r
    where r: "multiply depth a (Finite b) base_arg = Inr r" ..
  then have "multiply_partial a (Finite b) base_arg = Some r"
    by (rule multiply_partial_of_multiply)
  with r multiply_trace_length [OF assms(1) d] show ?thesis by simp
qed

theorem multiply_returns_for_exact_counts_witness:
  "(3::int) \<le> 2 ^ 53 \<and> max 1 (nat 3) \<le> 3 \<and>
   multiply 3 (Finite 2) (Finite 3) None = Inr (Finite 6) \<and>
   multiply_partial (Finite 2) (Finite 3) None = Some (Finite 6) \<and>
   length (multiply_trace 3 (Finite 2) (Finite 3) None) = 3"
proof -
  have v: "multiply 3 (Finite 2) (Finite 3) None = Inr (Finite 6)"
    by code_simp
  show ?thesis
    using multiply_returns_for_exact_counts [of 3 3 "Finite 2" None] v by simp
qed

subsection \<open>The recursive step\<close>

text \<open>
  C5, as stated: at every recursive step the new accumulator is the old one plus
  \<open>base\<close> and the count falls by exactly one. In \<open>multiply(9007199254740991, 3)\<close> the
  third accumulator is the rounded sum, and from the count \<open>9007199254740996\<close> the
  recursive call gets the same count again.
\<close>

theorem multiply_step_rounding_counterexample:
  "frame_a (multiply_trace 3 (Finite 9007199254740991) (Finite 3) None ! 1) =
     Finite 18014398509481982 \<and>
   frame_base (multiply_trace 3 (Finite 9007199254740991) (Finite 3) None ! 1) =
     Finite 9007199254740991 \<and>
   frame_a (multiply_trace 3 (Finite 9007199254740991) (Finite 3) None ! 2) =
     Finite 27021597764222972 \<and>
   (18014398509481982::int) + 9007199254740991 \<noteq> 27021597764222972 \<and>
   representable 9007199254740996 \<and>
   frame_b (multiply_trace 2 (Finite 1) (Finite 9007199254740996) None ! 0) =
     Finite 9007199254740996 \<and>
   frame_b (multiply_trace 2 (Finite 1) (Finite 9007199254740996) None ! 1) =
     Finite 9007199254740996"
  by code_simp

text \<open>
  C5, amended: take any invocation of a call whose accumulator \<open>a\<close>, count \<open>b\<close> and
  \<open>base\<close> are integers with \<open>b \<le> 2^53\<close> and \<open>|a + base| \<le> 2^53\<close>, while the stack has
  room for one more frame. The recursive branch is taken exactly when \<open>b \<ge> 2\<close>; the
  next invocation then has the accumulator \<open>a + base\<close>, the count \<open>b - 1\<close> and the same
  \<open>base\<close>. When \<open>b \<le> 1\<close> the invocation is the last one.
\<close>

theorem multiply_step_invariant:
  assumes "i < length (multiply_trace depth a b base_arg)"
    and "multiply_trace depth a b base_arg ! i =
           \<lparr>frame_a = Finite x, frame_b = Finite n, frame_base = Finite y\<rparr>"
    and "n \<le> 2 ^ 53" and "\<bar>x + y\<bar> \<le> 2 ^ 53" and "Suc i < depth"
  shows "if 2 \<le> n
         then Suc i < length (multiply_trace depth a b base_arg) \<and>
              multiply_trace depth a b base_arg ! Suc i =
                \<lparr>frame_a = Finite (x + y), frame_b = Finite (n - 1), frame_base = Finite y\<rparr>
         else length (multiply_trace depth a b base_arg) = Suc i"
proof -
  let ?tr = "multiply_trace depth a b base_arg"
  define k where "k = depth - i - 2"
  with assms(5) have k: "depth - i = Suc (Suc k)"
    by simp
  from multiply_trace_drop [OF assms(1)] assms(2) k
  have dr: "drop i ?tr = multiply_trace (Suc (Suc k)) (Finite x) (Finite n) (Some (Finite y))"
    by simp
  have len: "length (drop i ?tr) = length ?tr - i"
    by simp
  show ?thesis
  proof (cases "2 \<le> n")
    case False
    then have "drop i ?tr = [\<lparr>frame_a = Finite x, frame_b = Finite n, frame_base = Finite y\<rparr>]"
      by (simp add: dr)
    with len assms(1) have "length ?tr = Suc i" by simp
    with False show ?thesis by simp
  next
    case True
    have ad: "add (Finite x) (Finite y) = Finite (x + y)"
      using assms(4) by (rule add_exact)
    have sub: "subtract (Finite n) (Finite 1) = Finite (n - 1)"
      using True assms(3) by (intro subtract_one_exact) simp_all
    have "multiply_trace (Suc (Suc k)) (Finite x) (Finite n) (Some (Finite y)) =
        \<lparr>frame_a = Finite x, frame_b = Finite n, frame_base = Finite y\<rparr> #
        multiply_trace (Suc k) (add (Finite x) (Finite y)) (subtract (Finite n) (Finite 1))
          (Some (Finite y))"
      using True by (simp add: Let_def)
    also have "\<dots> = \<lparr>frame_a = Finite x, frame_b = Finite n, frame_base = Finite y\<rparr> #
        multiply_trace (Suc k) (Finite (x + y)) (Finite (n - 1)) (Some (Finite y))"
      by (simp only: ad sub)
    also have "\<dots> = \<lparr>frame_a = Finite x, frame_b = Finite n, frame_base = Finite y\<rparr> #
        \<lparr>frame_a = Finite (x + y), frame_b = Finite (n - 1), frame_base = Finite y\<rparr> #
        (if n - 1 \<le> 1 then []
         else multiply_trace k (add (Finite (x + y)) (Finite y))
                (subtract (Finite (n - 1)) (Finite 1)) (Some (Finite y)))"
      by (simp add: Let_def)
    finally have two: "drop i ?tr =
        \<lparr>frame_a = Finite x, frame_b = Finite n, frame_base = Finite y\<rparr> #
        \<lparr>frame_a = Finite (x + y), frame_b = Finite (n - 1), frame_base = Finite y\<rparr> #
        (if n - 1 \<le> 1 then []
         else multiply_trace k (add (Finite (x + y)) (Finite y))
                (subtract (Finite (n - 1)) (Finite 1)) (Some (Finite y)))"
      by (simp only: dr)
    then have "2 \<le> length (drop i ?tr)" by simp
    with len have next_frame: "Suc i < length ?tr" by simp
    then have "?tr ! Suc i = drop i ?tr ! 1"
      by simp
    also have "\<dots> = \<lparr>frame_a = Finite (x + y), frame_b = Finite (n - 1), frame_base = Finite y\<rparr>"
      by (simp only: two) simp
    finally show ?thesis using True next_frame by simp
  qed
qed

theorem multiply_step_invariant_witness:
  "1 < length (multiply_trace 4 (Finite 2) (Finite 4) None) \<and>
   multiply_trace 4 (Finite 2) (Finite 4) None ! 1 =
     \<lparr>frame_a = Finite 4, frame_b = Finite 3, frame_base = Finite 2\<rparr> \<and>
   (3::int) \<le> 2 ^ 53 \<and> \<bar>4 + 2 :: int\<bar> \<le> 2 ^ 53 \<and> Suc 1 < (4::nat) \<and>
   Suc 1 < length (multiply_trace 4 (Finite 2) (Finite 4) None) \<and>
   multiply_trace 4 (Finite 2) (Finite 4) None ! Suc 1 =
     \<lparr>frame_a = Finite 6, frame_b = Finite 2, frame_base = Finite 2\<rparr>"
proof -
  have tr: "multiply_trace 4 (Finite 2) (Finite 4) None =
    [\<lparr>frame_a = Finite 2, frame_b = Finite 4, frame_base = Finite 2\<rparr>,
     \<lparr>frame_a = Finite 4, frame_b = Finite 3, frame_base = Finite 2\<rparr>,
     \<lparr>frame_a = Finite 6, frame_b = Finite 2, frame_base = Finite 2\<rparr>,
     \<lparr>frame_a = Finite 8, frame_b = Finite 1, frame_base = Finite 2\<rparr>]"
    by code_simp
  have h1: "1 < length (multiply_trace 4 (Finite 2) (Finite 4) None)"
    by (simp add: tr)
  have h2: "multiply_trace 4 (Finite 2) (Finite 4) None ! 1 =
      \<lparr>frame_a = Finite 4, frame_b = Finite 3, frame_base = Finite 2\<rparr>"
    by (simp add: tr)
  have h3: "(3::int) \<le> 2 ^ 53" and h4: "\<bar>4 + 2 :: int\<bar> \<le> 2 ^ 53" and h5: "Suc 1 < (4::nat)"
    by simp_all
  show ?thesis
    using multiply_step_invariant [OF h1 h2 h3 h4 h5] h1 h2 by simp
qed

text \<open>
  C6, as stated: a call with an integer count \<open>b \<ge> 1\<close> makes exactly \<open>b - 1\<close> recursive
  steps. From the count \<open>9007199254740996\<close> the difference \<open>b - 1\<close> rounds back to \<open>b\<close>:
  on a stack with room for \<open>9007199254741000\<close> frames the call makes
  \<open>9007199254740999\<close> recursive steps, more than \<open>b - 1\<close>, and ends in \<open>RangeError\<close>.
\<close>

theorem multiply_operation_count_counterexample:
  "representable 9007199254740996 \<and>
   multiply_counted 9007199254741000 (Finite 2) (Finite 9007199254740996) None no_operations =
     (Inl RangeError,
      \<lparr>additions = 9007199254740999, subtractions = 9007199254740999,
       recursive_steps = 9007199254740999\<rparr>)"
proof -
  have r: "representable 9007199254740996"
    by code_simp
  have s: "subtract (Finite 9007199254740996) (Finite 1) = Finite 9007199254740996"
    by code_simp
  have g: "\<not> number_le (Finite 9007199254740996) (Finite 1)"
    by simp
  have d: "(9007199254741000::nat) = Suc 9007199254740999"
    by simp
  have "multiply_counted (Suc 9007199254740999) (Finite 2) (Finite 9007199254740996) None
      no_operations =
     (Inl RangeError,
      \<lparr>additions = 9007199254740999, subtractions = 9007199254740999,
       recursive_steps = 9007199254740999\<rparr>)"
    using multiply_counted_stuck [OF s g, of 9007199254740999 "Finite 2" None no_operations]
    by (simp only: no_operations_def counters.simps add_0)
  with r show ?thesis by (simp only: d simp_thms)
qed

text \<open>
  C6, amended: a call with an integer count \<open>1 \<le> b \<le> 2^53\<close>, on a stack with room for
  \<open>b\<close> frames, returns after exactly \<open>b - 1\<close> recursive steps, and with them exactly
  \<open>b - 1\<close> additions and \<open>b - 1\<close> subtractions: one of each per step, whatever the
  counters were before.
\<close>

theorem multiply_operation_count:
  assumes "1 \<le> b" and "b \<le> 2 ^ 53" and "nat b \<le> depth"
  shows "multiply_counted depth a (Finite b) base_arg c =
           (multiply depth a (Finite b) base_arg,
            \<lparr>additions = additions c + nat (b - 1),
             subtractions = subtractions c + nat (b - 1),
             recursive_steps = recursive_steps c + nat (b - 1)\<rparr>) \<and>
         (\<exists>r. multiply depth a (Finite b) base_arg = Inr r)"
proof -
  from assms(1,3) have "0 < depth" by linarith
  with assms(2,3) have "\<exists>r. multiply depth a (Finite b) base_arg = Inr r"
    by (intro multiply_returns)
  moreover have "multiply_counted depth a (Finite b) base_arg c =
      (fst (multiply_counted depth a (Finite b) base_arg c),
       snd (multiply_counted depth a (Finite b) base_arg c))"
    by simp
  ultimately show ?thesis
    by (simp only: multiply_counted_value multiply_counted_exact [OF assms] simp_thms)
qed

theorem multiply_operation_count_witness:
  "(1::int) \<le> 4 \<and> (4::int) \<le> 2 ^ 53 \<and> nat 4 \<le> 4 \<and>
   multiply_counted 4 (Finite 2) (Finite 4) None no_operations =
     (Inr (Finite 8), \<lparr>additions = 3, subtractions = 3, recursive_steps = 3\<rparr>)"
proof -
  have v: "multiply 4 (Finite 2) (Finite 4) None = Inr (Finite 8)"
    by code_simp
  show ?thesis
    using multiply_operation_count [of 4 4 "Finite 2" None no_operations]
    by (simp add: v no_operations_def)
qed

text \<open>
  C7. A call with two arguments is the call with \<open>base\<close> set to the first argument, and
  every invocation of one call, the first and all recursive ones, has the same \<open>base\<close>.
\<close>

theorem multiply_base_fixed:
  "multiply depth a b None = multiply depth a b (Some a) \<and>
   multiply_trace depth a b None = multiply_trace depth a b (Some a) \<and>
   (\<forall>f \<in> set (multiply_trace depth a b base_arg). frame_base f = default_base a base_arg)"
proof (intro conjI ballI)
  show "multiply depth a b None = multiply depth a b (Some a)"
    by (cases depth) simp_all
  show "multiply_trace depth a b None = multiply_trace depth a b (Some a)"
    by (cases depth) simp_all
  show "frame_base f = default_base a base_arg"
    if "f \<in> set (multiply_trace depth a b base_arg)" for f
    using that by (rule multiply_trace_base)
qed

theorem multiply_base_fixed_witness:
  "multiply 3 (Finite 2) (Finite 3) None = multiply 3 (Finite 2) (Finite 3) (Some (Finite 2)) \<and>
   multiply_trace 3 (Finite 2) (Finite 3) None =
     multiply_trace 3 (Finite 2) (Finite 3) (Some (Finite 2)) \<and>
   \<lparr>frame_a = Finite 4, frame_b = Finite 2, frame_base = Finite 2\<rparr>
     \<in> set (multiply_trace 3 (Finite 2) (Finite 3) None) \<and>
   frame_base \<lparr>frame_a = Finite 4, frame_b = Finite 2, frame_base = Finite 2\<rparr> =
     default_base (Finite 2) None"
proof -
  have "multiply_trace 3 (Finite 2) (Finite 3) None =
    [\<lparr>frame_a = Finite 2, frame_b = Finite 3, frame_base = Finite 2\<rparr>,
     \<lparr>frame_a = Finite 4, frame_b = Finite 2, frame_base = Finite 2\<rparr>,
     \<lparr>frame_a = Finite 6, frame_b = Finite 1, frame_base = Finite 2\<rparr>]"
    by code_simp
  then have mem: "\<lparr>frame_a = Finite 4, frame_b = Finite 2, frame_base = Finite 2\<rparr>
      \<in> set (multiply_trace 3 (Finite 2) (Finite 3) None)"
    by simp
  show ?thesis
    using mem multiply_base_fixed [of 3 "Finite 2" "Finite 3" None] by blast
qed

subsection \<open>Determinism and effects\<close>

text \<open>
  C9. With collaborators that are pure, two calls of \<open>multiply\<close> with the same \<open>a\<close>, \<open>b\<close>
  and \<open>base\<close> return the same value, in whatever ambient states they run, and each call
  leaves the ambient state as it found it.
\<close>

theorem multiply_deterministic_and_pure:
  assumes "pure_binop add_impl" and "pure_binop subtract_impl"
    and "multiply_in add_impl subtract_impl a b base_arg s out"
    and "multiply_in add_impl subtract_impl a b base_arg s' out'"
  shows "fst out' = fst out \<and> snd out = s \<and> snd out' = s'"
  using multiply_in_value [OF assms] multiply_in_state [OF assms(1,2,3)]
    multiply_in_state [OF assms(1,2,4)] by simp

theorem multiply_deterministic_and_pure_witness:
  "pure_binop (add_in :: nat binop) \<and> pure_binop (subtract_in :: nat binop) \<and>
   multiply_in add_in subtract_in (Finite 2) (Finite 3) None (0::nat) (Finite 6, 0) \<and>
   multiply_in add_in subtract_in (Finite 2) (Finite 3) None (5::nat) (Finite 6, 5) \<and>
   fst (Finite 6, 5::nat) = fst (Finite 6, 0::nat)"
proof -
  have v: "multiply 3 (Finite 2) (Finite 3) None = Inr (Finite 6)"
    by code_simp
  have r0: "multiply_in add_in subtract_in (Finite 2) (Finite 3) None (0::nat) (Finite 6, 0)"
    using v by (rule multiply_in_of_multiply)
  have r5: "multiply_in add_in subtract_in (Finite 2) (Finite 3) None (5::nat) (Finite 6, 5)"
    using v by (rule multiply_in_of_multiply)
  show ?thesis
    using multiply_deterministic_and_pure
      [OF pure_binop_add_in pure_binop_subtract_in r0 r5]
      pure_binop_add_in [where ?'a = nat] pure_binop_subtract_in [where ?'a = nat] r0 r5
    by simp
qed

end
